theory Spec2Isabelle
  imports Complex_Main "HOL-Library.Sublist"
begin

section \<open>Python values, exceptions and the outside world\<close>

text \<open>
  Papers are loaded with \<^verbatim>\<open>json.load\<close> and the citation service answers in JSON, so the
  values the pipeline handles are JSON-shaped Python objects. Manually supplied answers are
  plain \<^verbatim>\<open>str\<close> objects that end up in the same list as the paper dictionaries, hence
  one type for all of them. A dictionary is an association list read with \<open>map_of\<close>.
  Strings are lists of characters; the markers the code searches for are ASCII, and the code
  only compares, concatenates, searches and slices strings.
\<close>

datatype pyval =
    PNone
  | PBool bool
  | PInt int
  | PStr string
  | PList "pyval list"
  | PDict "(string \<times> pyval) list"

text \<open>
  The exceptions the modelled code can raise. \<open>ServiceError\<close> stands for whatever an
  external call raises (network failure, API error); its text is not inspected anywhere.
\<close>

datatype error =
    AttributeError
  | KeyError
  | IndexError
  | TypeError
  | ValueError
  | ServiceError string

text \<open>
  A \<^verbatim>\<open>requests.Response\<close>: the body as text, and what \<^verbatim>\<open>response.json()\<close>
  gives for it: the decoded value, or \<open>None\<close> when decoding raises (a subclass of)
  \<^verbatim>\<open>ValueError\<close>.
\<close>

record response =
  resp_text :: string
  resp_json :: "pyval option"

text \<open>
  Everything outside the repository is a parameter. The calls that reach the network thread
  a world state \<open>'w\<close>, so that a service may answer the same request differently each time:
  \<^item> \<open>openai_call prompt use_gpt4 temperature max_tokens\<close>, the completion service;
  \<^item> \<open>requests_get url\<close>, the HTTP request of the citation lookup;
  \<^item> \<open>tiktoken_encode text\<close>, the tokenizer (which may raise, and may fetch its vocabulary);
  \<^item> \<open>EMAIL\<close>, the contact address read from the environment at import time;
  \<^item> \<open>builtin_str\<close>, the text Python's \<^verbatim>\<open>str()\<close> prints for an object that is not
    itself a string.
  The temperature is a number that is only handed on to the completion service.
\<close>

record 'w env =
  openai_call :: "string \<Rightarrow> bool \<Rightarrow> real \<Rightarrow> int \<Rightarrow> 'w \<Rightarrow> (error + string) \<times> 'w"
  requests_get :: "string \<Rightarrow> 'w \<Rightarrow> (error + response) \<times> 'w"
  tiktoken_encode :: "string \<Rightarrow> 'w \<Rightarrow> (error + int list) \<times> 'w"
  EMAIL :: string
  builtin_str :: "pyval \<Rightarrow> string"

section \<open>Python built-ins used by the pipeline\<close>

text \<open>Interpolation into an f-string or \<^verbatim>\<open>str.format\<close>: a string is inserted as it is.\<close>

definition py_str :: "'w env \<Rightarrow> pyval \<Rightarrow> string" where
  "py_str env v = (case v of PStr s \<Rightarrow> s | _ \<Rightarrow> builtin_str env v)"

text \<open>\<^verbatim>\<open>obj.get(key, default)\<close>: only a dictionary has the method.\<close>

fun py_get :: "pyval \<Rightarrow> string \<Rightarrow> pyval \<Rightarrow> error + pyval" where
  "py_get (PDict kvs) k d = Inr (case map_of kvs k of None \<Rightarrow> d | Some v \<Rightarrow> v)"
| "py_get _ k d = Inl AttributeError"

text \<open>\<^verbatim>\<open>obj[key]\<close> with a string key.\<close>

fun py_getitem_str :: "pyval \<Rightarrow> string \<Rightarrow> error + pyval" where
  "py_getitem_str (PDict kvs) k = (case map_of kvs k of None \<Rightarrow> Inl KeyError | Some v \<Rightarrow> Inr v)"
| "py_getitem_str _ k = Inl TypeError"

text \<open>
  \<^verbatim>\<open>obj[i]\<close> with an integer: lists and strings are indexed (negative indices count from
  the end), a dictionary with string keys has no such key, nothing else is subscriptable.
\<close>

definition py_index :: "'a list \<Rightarrow> int \<Rightarrow> error + 'a" where
  "py_index xs i =
     (if 0 \<le> i \<and> i < int (length xs) then Inr (xs ! nat i)
      else if i < 0 \<and> - i \<le> int (length xs) then Inr (xs ! nat (int (length xs) + i))
      else Inl IndexError)"

fun py_getitem_int :: "pyval \<Rightarrow> int \<Rightarrow> error + pyval" where
  "py_getitem_int (PList xs) i = py_index xs i"
| "py_getitem_int (PStr s) i = (case py_index s i of Inl e \<Rightarrow> Inl e | Inr c \<Rightarrow> Inr (PStr [c]))"
| "py_getitem_int (PDict kvs) i = Inl KeyError"
| "py_getitem_int _ i = Inl TypeError"

text \<open>
  \<^verbatim>\<open>key in obj\<close> for a string key: key membership in a dictionary, element membership in
  a list, substring test in a string; \<^verbatim>\<open>TypeError\<close> on anything that is not iterable.
\<close>

fun py_contains :: "string \<Rightarrow> pyval \<Rightarrow> error + bool" where
  "py_contains k (PDict kvs) = Inr (map_of kvs k \<noteq> None)"
| "py_contains k (PList xs) = Inr (List.member xs (PStr k))"
| "py_contains k (PStr s) = Inr (sublist k s)"
| "py_contains k _ = Inl TypeError"

text \<open>
  \<^verbatim>\<open>s.rfind(sub)\<close>: the highest index at which \<open>sub\<close> starts in \<open>s\<close>, or \<open>-1\<close>.
  \<open>occurrences sub s\<close> lists, in ascending order, every index at which \<open>sub\<close> starts.
\<close>

definition occurrences :: "string \<Rightarrow> string \<Rightarrow> nat list" where
  "occurrences sub s = filter (\<lambda>i. prefix sub (drop i s)) [0..<Suc (length s)]"

definition rfind :: "string \<Rightarrow> string \<Rightarrow> int" where
  "rfind s sub = (let occ = occurrences sub s in if occ = [] then - 1 else int (last occ))"

text \<open>\<^verbatim>\<open>sep.join(xs)\<close>.\<close>

fun join :: "string \<Rightarrow> string list \<Rightarrow> string" where
  "join sep [] = []"
| "join sep [x] = x"
| "join sep (x # y # ys) = x @ sep @ join sep (y # ys)"

text \<open>The decimal text of a natural number, as an f-string prints \<^verbatim>\<open>idx + 1\<close>.\<close>

fun str_nat :: "nat \<Rightarrow> string" where
  "str_nat n = (if n < 10 then [''0123456789'' ! n] else str_nat (n div 10) @ [''0123456789'' ! (n mod 10)])"

declare str_nat.simps [simp del]

section \<open>combine\_answers.py\<close>

definition literature_review_prompt :: "string \<Rightarrow> string \<Rightarrow> string" where
  \<open>literature_review_prompt research_question answer_list =
     ''"\<newline>`reset`\<newline>`no quotes`\<newline>`no explanations`\<newline>`no prompt`\<newline>'' @
     ''`no self-reference`\<newline>`no apologies`\<newline>`no filler`\<newline>`just answer`\<newline>\<newline>'' @
     ''I will give you a list of research findings and a research question.\<newline>\<newline>'' @
     ''Synthesize the list of research findings to generate a scientific literature review. '' @
     ''Also, identify knowledge gaps and future research directions.\<newline>\<newline>'' @
     ''Make sure to always reference every research finding you use with in-text citations '' @
     ''in APA format using the source provided. \<newline>\<newline>'' @
     ''Only use the research findings I provide you with to create your literature review. '' @
     ''Only give me the output and nothing else.\<newline>\<newline>'' @
     ''Now, using the concepts above, create a literature review for this research question '' @
     [CHR 0x27] @ research_question @ [CHR 0x27] @
     '' using the following research findings:\<newline>\<newline>'' @
     answer_list @ ''\<newline>''\<close>

text \<open>\<^verbatim>\<open>count_tokens\<close>: the length of the token list the tokenizer returns.\<close>

definition count_tokens :: "'w env \<Rightarrow> string \<Rightarrow> 'w \<Rightarrow> (error + int) \<times> 'w" where
  "count_tokens env text_in w =
     (case tiktoken_encode env text_in w of
        (Inl e, w') \<Rightarrow> (Inl e, w')
      | (Inr tokens, w') \<Rightarrow> (Inr (int (length tokens)), w'))"

text \<open>
  The output budget computed on lines 56 and 57 of \<^verbatim>\<open>combine_answers\<close> from the
  token count of the prompt.
\<close>

definition max_tokens_for :: "int \<Rightarrow> int" where
  "max_tokens_for input_tokens = (let remaining_tokens = 4080 - input_tokens in max remaining_tokens 0)"

definition combine_answers ::
  "'w env \<Rightarrow> string list \<Rightarrow> string \<Rightarrow> bool \<Rightarrow> real \<Rightarrow> 'w \<Rightarrow> (error + string) \<times> 'w" where
  "combine_answers env answers research_question use_gpt4 temperature w =
     (let answer_list = join ''\<newline>\<newline>'' answers;
          prompt = literature_review_prompt research_question answer_list
      in case count_tokens env prompt w of
           (Inl e, w1) \<Rightarrow> (Inl e, w1)
         | (Inr input_tokens, w1) \<Rightarrow>
             openai_call env prompt use_gpt4 temperature (max_tokens_for input_tokens) w1)"

section \<open>generate\_lit\_review.py\<close>

subsection \<open>get\_citation\_by\_doi\<close>

text \<open>
  The \<^verbatim>\<open>try\<close> block: \<^verbatim>\<open>response.json()\<close> and the three subscripts. Only
  \<^verbatim>\<open>ValueError\<close> is caught, and only decoding raises it; a \<^verbatim>\<open>KeyError\<close>,
  \<^verbatim>\<open>IndexError\<close> or \<^verbatim>\<open>TypeError\<close> of a subscript leaves the function.
\<close>

definition citation_of_response :: "response \<Rightarrow> error + pyval" where
  "citation_of_response response =
     (case resp_json response of
        None \<Rightarrow> Inr (PStr (resp_text response))
      | Some data \<Rightarrow>
          (case py_getitem_str data ''citations'' of
             Inl e \<Rightarrow> Inl e
           | Inr citations \<Rightarrow>
               (case py_getitem_int citations 0 of
                  Inl e \<Rightarrow> Inl e
                | Inr entry \<Rightarrow> py_getitem_str entry ''citation'')))"

definition citeas_url :: "'w env \<Rightarrow> pyval \<Rightarrow> string" where
  "citeas_url env doi = ''https://api.citeas.org/product/'' @ py_str env doi @ ''?email='' @ EMAIL env"

definition get_citation_by_doi :: "'w env \<Rightarrow> pyval \<Rightarrow> 'w \<Rightarrow> (error + pyval) \<times> 'w" where
  "get_citation_by_doi env doi w =
     (case requests_get env (citeas_url env doi) w of
        (Inl e, w') \<Rightarrow> (Inl e, w')
      | (Inr response, w') \<Rightarrow> (citation_of_response response, w'))"

subsection \<open>extract\_answers\_from\_papers\<close>

definition default_answer :: string where
  "default_answer = ''No answer found.''"

definition extract_answer_prompt :: "string \<Rightarrow> string \<Rightarrow> string" where
  \<open>extract_answer_prompt research_question abstract =
     ''\<newline>    `reset`\<newline>    `no quotes`\<newline>    `no explanations`\<newline>    `no prompt`\<newline>'' @
     ''    `no self-reference`\<newline>    `no apologies`\<newline>    `no filler`\<newline>    `just answer`\<newline>\<newline>'' @
     ''    I will give you the abstract of an academic paper. '' @
     ''Extract the answer to this research question: '' @ research_question @
     '' from the abstract.\<newline>\<newline>'' @
     ''    If the answer is not in the abstract, then you are only allowed to respond with '' @
     [CHR 0x27] @ ''No answer found'' @ [CHR 0x27] @ ''.\<newline>\<newline>'' @
     ''    This is the abstract: '' @ abstract @ ''\<newline>    ''\<close>

text \<open>The f-string of line 123.\<close>

definition answer_with_citation :: "string \<Rightarrow> string \<Rightarrow> string" where
  "answer_with_citation answer citation = answer @ '' SOURCE: '' @ citation"

text \<open>
  Lines 108 to 111: the citation of a paper, through the DOI lookup when the paper has one,
  its \<^verbatim>\<open>url\<close> otherwise.
\<close>

definition paper_citation :: "'w env \<Rightarrow> pyval \<Rightarrow> 'w \<Rightarrow> (error + pyval) \<times> 'w" where
  "paper_citation env paper w =
     (case py_contains ''externalIds'' paper of
        Inl e \<Rightarrow> (Inl e, w)
      | Inr False \<Rightarrow> (py_getitem_str paper ''url'', w)
      | Inr True \<Rightarrow>
          (case py_getitem_str paper ''externalIds'' of
             Inl e \<Rightarrow> (Inl e, w)
           | Inr ids \<Rightarrow>
               (case py_contains ''DOI'' ids of
                  Inl e \<Rightarrow> (Inl e, w)
                | Inr False \<Rightarrow> (py_getitem_str paper ''url'', w)
                | Inr True \<Rightarrow>
                    (case py_getitem_str ids ''DOI'' of
                       Inl e \<Rightarrow> (Inl e, w)
                     | Inr doi \<Rightarrow> get_citation_by_doi env doi w))))"

text \<open>
  One run of the loop body (lines 106 to 126) on a paper: an exception, or the answer to
  append, if any. The steps are in the order of the source: abstract, title, citation,
  prompt, completion. Printing and colouring the title are left out, and so is the first
  value of \<^verbatim>\<open>answer_with_citation\<close> (line 121), which is never used.
\<close>

definition process_paper ::
  "'w env \<Rightarrow> string \<Rightarrow> bool \<Rightarrow> real \<Rightarrow> int \<Rightarrow> pyval \<Rightarrow> 'w \<Rightarrow> (error + string option) \<times> 'w" where
  "process_paper env research_question use_gpt4 temperature max_tokens paper w =
     (case py_get paper ''abstract'' (PStr '''') of
        Inl e \<Rightarrow> (Inl e, w)
      | Inr abstract \<Rightarrow>
          (case py_get paper ''title'' (PStr '''') of
             Inl e \<Rightarrow> (Inl e, w)
           | Inr title \<Rightarrow>
               (case paper_citation env paper w of
                  (Inl e, w1) \<Rightarrow> (Inl e, w1)
                | (Inr citation, w1) \<Rightarrow>
                    (let prompt = extract_answer_prompt research_question (py_str env abstract)
                     in case openai_call env prompt use_gpt4 temperature max_tokens w1 of
                          (Inl e, w2) \<Rightarrow> (Inl e, w2)
                        | (Inr answer, w2) \<Rightarrow>
                            if answer \<noteq> default_answer
                            then (Inr (Some (answer_with_citation answer (py_str env citation))), w2)
                            else (Inr None, w2)))))"

text \<open>The \<^verbatim>\<open>for\<close> loop, with the list \<^verbatim>\<open>answers\<close> it appends to.\<close>

fun extract_loop ::
  "'w env \<Rightarrow> string \<Rightarrow> bool \<Rightarrow> real \<Rightarrow> int \<Rightarrow> pyval list \<Rightarrow> string list \<Rightarrow> 'w
     \<Rightarrow> (error + string list) \<times> 'w" where
  "extract_loop env rq g t m [] answers w = (Inr answers, w)"
| "extract_loop env rq g t m (paper # papers) answers w =
     (case process_paper env rq g t m paper w of
        (Inl e, w') \<Rightarrow> (Inl e, w')
      | (Inr None, w') \<Rightarrow> extract_loop env rq g t m papers answers w'
      | (Inr (Some a), w') \<Rightarrow> extract_loop env rq g t m papers (answers @ [a]) w')"

definition extract_answers_from_papers ::
  "'w env \<Rightarrow> pyval list \<Rightarrow> string \<Rightarrow> bool \<Rightarrow> real \<Rightarrow> int \<Rightarrow> 'w \<Rightarrow> (error + string list) \<times> 'w" where
  "extract_answers_from_papers env papers research_question use_gpt4 temperature max_tokens w =
     extract_loop env research_question use_gpt4 temperature max_tokens papers [] w"

subsection \<open>extract\_citations\<close>

fun citations_loop :: "string list \<Rightarrow> string list \<Rightarrow> string list" where
  "citations_loop [] citations = citations"
| "citations_loop (answer # answers) citations =
     (let citation_start = rfind answer ''SOURCE: ''
      in if citation_start \<noteq> - 1
         then citations_loop answers
                (citations @ [drop (nat (citation_start + int (length ''SOURCE: ''))) answer])
         else citations_loop answers citations)"

definition extract_citations :: "string list \<Rightarrow> string list" where
  "extract_citations answers = citations_loop answers []"

subsection \<open>literature\_review\<close>

text \<open>
  \<open>references_list\<close> is the local variable of that name (lines 56 to 58); the local
  variable \<^verbatim>\<open>literature_review\<close> is called \<open>review\<close> here.
\<close>

definition references_list :: "string list \<Rightarrow> string" where
  "references_list citations =
     join ''\<newline>'' (map (\<lambda>(idx, citation). str_nat (idx + 1) @ ''. '' @ citation) (enumerate 0 citations))"

definition literature_review ::
  "'w env \<Rightarrow> string \<Rightarrow> pyval list \<Rightarrow> pyval list \<Rightarrow> 'w \<Rightarrow> (error + string) \<times> 'w" where
  "literature_review env research_question top_papers manualAnswers w =
     (let top_papers = top_papers @ manualAnswers
      in case extract_answers_from_papers env top_papers research_question False 0 150 w of
           (Inl e, w1) \<Rightarrow> (Inl e, w1)
         | (Inr answers, w1) \<Rightarrow>
             (case combine_answers env answers research_question False (1 / 10) w1 of
                (Inl e, w2) \<Rightarrow> (Inl e, w2)
              | (Inr review, w2) \<Rightarrow>
                  (let citations = extract_citations answers;
                       review = review @ ''\<newline>\<newline>References:\<newline>'' @ references_list citations;
                       review = review @ ''resultEnd''
                   in (Inr review, w2))))"

section \<open>A scripted outside world\<close>

text \<open>
  For concrete runs: the world is the list of completions still to be served and the log of
  the \<open>max_tokens\<close> values requested so far. The completion service serves the next
  scripted completion, the citation service always answers \<open>resp\<close>, and the tokenizer
  finds \<open>tokens\<close> tokens in every text.
\<close>

type_synonym script = "string list \<times> int list"

definition scripted_env :: "nat \<Rightarrow> response \<Rightarrow> script env" where
  "scripted_env tokens resp =
     \<lparr> openai_call = (\<lambda>prompt use_gpt4 temperature max_tokens w.
          case fst w of
            [] \<Rightarrow> (Inl (ServiceError ''script exhausted''), w)
          | r # rs \<Rightarrow> (Inr r, (rs, snd w @ [max_tokens]))),
       requests_get = (\<lambda>url w. (Inr resp, w)),
       tiktoken_encode = (\<lambda>text_in w. (Inr (replicate tokens 0), w)),
       EMAIL = ''reader@example.org'',
       builtin_str = (\<lambda>v. ''<object>'') \<rparr>"

definition not_found :: response where
  "not_found = \<lparr> resp_text = ''Not Found'', resp_json = None \<rparr>"

definition liu_2020 :: response where
  \<open>liu_2020 =
     \<lparr> resp_text = ''{"citations":[{"citation":"Liu et al. (2020)"}]}'',
       resp_json = Some (PDict [(''citations'', PList [PDict [(''citation'', PStr ''Liu et al. (2020)'')]])]) \<rparr>\<close>

definition error_body :: response where
  \<open>error_body =
     \<lparr> resp_text = ''{"message":"not found"}'',
       resp_json = Some (PDict [(''message'', PStr ''not found'')]) \<rparr>\<close>

definition no_citations :: response where
  \<open>no_citations =
     \<lparr> resp_text = ''{"citations":[]}'',
       resp_json = Some (PDict [(''citations'', PList [])]) \<rparr>\<close>

text \<open>Two paper records without a DOI, and one with a DOI.\<close>

definition paper_smith :: pyval where
  "paper_smith =
     PDict [(''title'', PStr ''Diagnosis''), (''abstract'', PStr ''We find that AI improves diagnosis.''),
            (''url'', PStr ''Smith (2020)'')]"

definition paper_jones :: pyval where
  "paper_jones =
     PDict [(''title'', PStr ''Costs''), (''abstract'', PStr ''We find that AI raises cost concerns.''),
            (''url'', PStr ''Jones (2021)''), (''externalIds'', PDict [(''ArXiv'', PStr ''2101.00001'')])]"

definition paper_liu :: pyval where
  "paper_liu =
     PDict [(''abstract'', PStr ''A protein interaction map.''),
            (''externalIds'', PDict [(''DOI'', PStr ''10.1038/s41586-020-2003-7'')]),
            (''url'', PStr ''https://example.org/liu'')]"

section \<open>Searching a string\<close>


lemma occurrences_iff:
  "i \<in> set (occurrences sub s) \<longleftrightarrow> (\<exists>pre post. s = pre @ sub @ post \<and> length pre = i)"
proof
  assume "i \<in> set (occurrences sub s)"
  then have le: "i \<le> length s" and p: "prefix sub (drop i s)"
    by (simp_all add: occurrences_def del: upt_Suc)
  from p obtain post where "drop i s = sub @ post"
    unfolding prefix_def by blast
  then have "s = take i s @ sub @ post"
    by (metis append_take_drop_id)
  moreover have "length (take i s) = i" using le by simp
  ultimately show "\<exists>pre post. s = pre @ sub @ post \<and> length pre = i" by blast
next
  assume "\<exists>pre post. s = pre @ sub @ post \<and> length pre = i"
  then obtain pre post where s: "s = pre @ sub @ post" and l: "length pre = i" by blast
  have "length pre \<le> length s" using s by simp
  moreover have "prefix sub (drop (length pre) s)" using s by simp
  ultimately show "i \<in> set (occurrences sub s)"
    using l by (simp add: occurrences_def del: upt_Suc)
qed


lemma occurrences_sorted: "sorted (occurrences sub s)"
  unfolding occurrences_def by (rule sorted_wrt_filter) (rule sorted_upt)

lemma sorted_le_last: "sorted xs \<Longrightarrow> x \<in> set xs \<Longrightarrow> x \<le> last xs"
  for x :: nat
  by (induction xs) auto

lemma occurrences_empty_iff: "occurrences sub s = [] \<longleftrightarrow> \<not> sublist sub s"
proof
  assume e: "occurrences sub s = []"
  show "\<not> sublist sub s"
  proof
    assume "sublist sub s"
    then obtain ps ss where "s = ps @ sub @ ss" unfolding sublist_def by blast
    then have "length ps \<in> set (occurrences sub s)" unfolding occurrences_iff by blast
    with e show False by simp
  qed
next
  assume n: "\<not> sublist sub s"
  show "occurrences sub s = []"
  proof (cases "occurrences sub s")
    case Nil
    then show ?thesis .
  next
    case (Cons i rest)
    then have "i \<in> set (occurrences sub s)" by simp
    then obtain pre post where "s = pre @ sub @ post" unfolding occurrences_iff by blast
    then have "sublist sub s" unfolding sublist_def by blast
    with n show ?thesis by simp
  qed
qed

lemma rfind_absent: "rfind s sub = - 1 \<longleftrightarrow> \<not> sublist sub s"
  by (simp add: rfind_def Let_def occurrences_empty_iff)

lemma occurrences_le_last:
  assumes "s = pre @ sub @ post"
  shows "occurrences sub s \<noteq> []" and "length pre \<le> last (occurrences sub s)"
proof -
  have mem: "length pre \<in> set (occurrences sub s)"
    unfolding occurrences_iff using assms by blast
  then show "occurrences sub s \<noteq> []" by auto
  show "length pre \<le> last (occurrences sub s)"
    using sorted_le_last[OF occurrences_sorted mem] .
qed

lemma rfind_last_occurrence:
  assumes "s = pre @ sub @ post"
    and "\<And>pre' post'. s = pre' @ sub @ post' \<Longrightarrow> length pre' \<le> length pre"
  shows "rfind s sub = int (length pre)"
proof -
  have ne: "occurrences sub s \<noteq> []" and le: "length pre \<le> last (occurrences sub s)"
    using occurrences_le_last[OF assms(1)] by simp_all
  have "last (occurrences sub s) \<in> set (occurrences sub s)" using ne by simp
  then obtain pre' post' where "s = pre' @ sub @ post'" and "length pre' = last (occurrences sub s)"
    unfolding occurrences_iff by blast
  then have "last (occurrences sub s) \<le> length pre"
    using assms(2) by metis
  with le ne show ?thesis by (simp add: rfind_def Let_def)
qed

lemma rfind_present:
  assumes "sublist sub s"
  shows "\<exists>pre post. s = pre @ sub @ post \<and> rfind s sub = int (length pre)
           \<and> (\<forall>pre' post'. s = pre' @ sub @ post' \<longrightarrow> length pre' \<le> length pre)"
proof -
  have ne: "occurrences sub s \<noteq> []" using assms occurrences_empty_iff by blast
  then have "last (occurrences sub s) \<in> set (occurrences sub s)" by simp
  then obtain pre post where s: "s = pre @ sub @ post" and l: "length pre = last (occurrences sub s)"
    unfolding occurrences_iff by blast
  have r: "rfind s sub = int (length pre)" using ne l by (simp add: rfind_def Let_def)
  have "length pre' \<le> length pre" if "s = pre' @ sub @ post'" for pre' post'
    using occurrences_le_last(2)[OF that] l by simp
  with s r show ?thesis by blast
qed

section \<open>The citation assembler\<close>

lemma citations_loop_acc:
  "citations_loop answers acc = acc @ citations_loop answers []"
proof (induction answers arbitrary: acc)
  case Nil
  show ?case by simp
next
  case (Cons a answers)
  show ?case
    using Cons.IH[of "acc @ [drop (nat (rfind a ''SOURCE: '' + int (length ''SOURCE: ''))) a]"]
          Cons.IH[of "[drop (nat (rfind a ''SOURCE: '' + int (length ''SOURCE: ''))) a]"]
          Cons.IH[of acc]
    by (simp add: Let_def)
qed

lemma extract_citations_Nil: "extract_citations [] = []"
  by (simp add: extract_citations_def)

lemma extract_citations_Cons:
  "extract_citations (a # answers) =
     (if rfind a ''SOURCE: '' \<noteq> - 1
      then drop (nat (rfind a ''SOURCE: '' + 8)) a # extract_citations answers
      else extract_citations answers)"
  using citations_loop_acc[of answers "[drop (nat (rfind a ''SOURCE: '' + 8)) a]"]
  by (simp add: extract_citations_def Let_def)

lemma extract_citations_append:
  "extract_citations (xs @ ys) = extract_citations xs @ extract_citations ys"
  by (induction xs) (simp_all add: extract_citations_Nil extract_citations_Cons)

lemma extract_citations_length: "length (extract_citations answers) \<le> length answers"
  by (induction answers) (simp_all add: extract_citations_Nil extract_citations_Cons)

lemma extract_citations_example:
  "extract_citations [''AI improves diagnosis. SOURCE: Smith (2020)'',
                      ''AI raises cost concerns. SOURCE: Jones (2021)'']
     = [''Smith (2020)'', ''Jones (2021)'']"
  by code_simp

text \<open>
  Claim C1. \<open>extract_citations\<close> walks the answers in order. An answer that contains the
  marker \<^verbatim>\<open>SOURCE: \<close> contributes the text after the last occurrence of the marker
  (no occurrence starts further right), verbatim; an answer without the marker contributes
  nothing, and the answers before and after it are treated as if it were not there. The two
  answers of the specification give \<^verbatim>\<open>Smith (2020)\<close> and \<^verbatim>\<open>Jones (2021)\<close>, the
  empty list gives the empty list, and the result is never longer than the input. The
  function is total on lists of strings: no step of it can raise.
\<close>

theorem extract_citations_spec:
  "(sublist ''SOURCE: '' a \<longrightarrow>
      (\<exists>pre cit. a = pre @ ''SOURCE: '' @ cit
         \<and> (\<forall>pre' post'. a = pre' @ ''SOURCE: '' @ post' \<longrightarrow> length pre' \<le> length pre)
         \<and> extract_citations (xs @ a # ys) = extract_citations xs @ cit # extract_citations ys))
   \<and> (\<not> sublist ''SOURCE: '' a \<longrightarrow>
        extract_citations (xs @ a # ys) = extract_citations xs @ extract_citations ys)
   \<and> extract_citations [] = []
   \<and> extract_citations [''AI improves diagnosis. SOURCE: Smith (2020)'',
                         ''AI raises cost concerns. SOURCE: Jones (2021)'']
        = [''Smith (2020)'', ''Jones (2021)'']
   \<and> length (extract_citations answers) \<le> length answers"
proof -
  have present: "\<exists>pre cit. a = pre @ ''SOURCE: '' @ cit
         \<and> (\<forall>pre' post'. a = pre' @ ''SOURCE: '' @ post' \<longrightarrow> length pre' \<le> length pre)
         \<and> extract_citations (xs @ a # ys) = extract_citations xs @ cit # extract_citations ys"
    if m: "sublist ''SOURCE: '' a"
  proof -
    from rfind_present[OF m] obtain pre post where
      a: "a = pre @ ''SOURCE: '' @ post" and r: "rfind a ''SOURCE: '' = int (length pre)"
      and l: "\<forall>pre' post'. a = pre' @ ''SOURCE: '' @ post' \<longrightarrow> length pre' \<le> length pre"
      by blast
    have "nat (rfind a ''SOURCE: '' + 8) = length pre + 8" using r by simp
    then have "drop (nat (rfind a ''SOURCE: '' + 8)) a = post"
      using a by simp
    moreover have "rfind a ''SOURCE: '' \<noteq> - 1" using r by simp
    ultimately have "extract_citations (xs @ a # ys) = extract_citations xs @ post # extract_citations ys"
      by (simp add: extract_citations_append extract_citations_Cons)
    with a l show ?thesis by blast
  qed
  have absent: "extract_citations (xs @ a # ys) = extract_citations xs @ extract_citations ys"
    if "\<not> sublist ''SOURCE: '' a"
    using that by (simp add: extract_citations_append extract_citations_Cons rfind_absent)
  show ?thesis
    using present absent extract_citations_Nil extract_citations_example extract_citations_length
    by blast
qed

theorem extract_citations_spec_witness:
  "sublist ''SOURCE: '' ''Finding. SOURCE: Doe (2019)''
   \<and> (\<exists>pre cit. ''Finding. SOURCE: Doe (2019)'' = pre @ ''SOURCE: '' @ cit
         \<and> extract_citations ([''no marker here''] @ ''Finding. SOURCE: Doe (2019)'' # [])
             = extract_citations [''no marker here''] @ cit # extract_citations [])
   \<and> \<not> sublist ''SOURCE: '' ''no marker here''
   \<and> extract_citations ([] @ ''no marker here'' # [''Finding. SOURCE: Doe (2019)''])
       = extract_citations [] @ extract_citations [''Finding. SOURCE: Doe (2019)'']
   \<and> extract_citations [''no marker here'', ''Finding. SOURCE: Doe (2019)''] = [''Doe (2019)'']"
proof -
  have p: "sublist ''SOURCE: '' ''Finding. SOURCE: Doe (2019)''" by code_simp
  have n: "\<not> sublist ''SOURCE: '' ''no marker here''" by code_simp
  have v: "extract_citations [''no marker here'', ''Finding. SOURCE: Doe (2019)''] = [''Doe (2019)'']"
    by code_simp
  show ?thesis
    using p n v
      extract_citations_spec[of "''Finding. SOURCE: Doe (2019)''" "[''no marker here'']" "[]" "[]"]
      extract_citations_spec[of "''no marker here''" "[]" "[''Finding. SOURCE: Doe (2019)'']" "[]"]
    by blast
qed

section \<open>The token budget of the synthesizer\<close>

lemma count_tokens_nonneg:
  "count_tokens env p w = (Inr n, w1) \<Longrightarrow> 0 \<le> n"
  by (auto simp: count_tokens_def split: prod.splits sum.splits)

text \<open>
  Claim C5. When the tokenizer returns \<open>tokens\<close> for the rendered prompt,
  \<open>combine_answers\<close> is the completion call on that prompt with the output budget
  \<open>max 0 (4080 - length tokens)\<close>, which is never negative; a prompt measured at 4100
  tokens gives the budget 0.
\<close>

theorem combine_answers_budget:
  assumes "tiktoken_encode env (literature_review_prompt research_question (join ''\<newline>\<newline>'' answers)) w
             = (Inr tokens, w1)"
  shows "combine_answers env answers research_question use_gpt4 temperature w
           = openai_call env (literature_review_prompt research_question (join ''\<newline>\<newline>'' answers))
               use_gpt4 temperature (max 0 (4080 - int (length tokens))) w1
         \<and> 0 \<le> max 0 (4080 - int (length tokens))
         \<and> max_tokens_for 4100 = 0"
  using assms by (simp add: combine_answers_def count_tokens_def max_tokens_for_def Let_def max.commute)

theorem combine_answers_budget_witness:
  "tiktoken_encode (scripted_env 4100 not_found) (literature_review_prompt ''q'' (join ''\<newline>\<newline>'' [])) ([''narrative''], [])
     = (Inr (replicate 4100 0), ([''narrative''], []))
   \<and> combine_answers (scripted_env 4100 not_found) [] ''q'' False (1 / 10) ([''narrative''], [])
     = (Inr ''narrative'', ([], [0]))"
proof -
  have h: "tiktoken_encode (scripted_env 4100 not_found) (literature_review_prompt ''q'' (join ''\<newline>\<newline>'' [])) ([''narrative''], [])
     = (Inr (replicate 4100 0), ([''narrative''], []))"
    by (simp add: scripted_env_def)
  show ?thesis
    using combine_answers_budget[OF h, of False "1 / 10"] h
    by (simp add: scripted_env_def)
qed

section \<open>The citation resolver\<close>

lemma py_getitem_str_Inr:
  "py_getitem_str x k = Inr v \<longleftrightarrow> (\<exists>d. x = PDict d \<and> map_of d k = Some v)"
  by (cases x) (auto split: option.splits)

lemma py_getitem_int_0_Inr:
  "py_getitem_int x 0 = Inr v \<longleftrightarrow>
     (\<exists>ys. x = PList (v # ys)) \<or> (\<exists>c cs. x = PStr (c # cs) \<and> v = PStr [c])"
proof (cases x)
  case (PList xs)
  then show ?thesis by (cases xs) (auto simp: py_index_def)
next
  case (PStr s)
  then show ?thesis by (cases s) (auto simp: py_index_def)
qed (auto simp: py_index_def)

lemma citation_of_response_Inr:
  "citation_of_response response = Inr v \<longleftrightarrow>
     (resp_json response = None \<and> v = PStr (resp_text response))
     \<or> (\<exists>d c rest. resp_json response = Some (PDict d)
           \<and> map_of d ''citations'' = Some (PList (PDict c # rest))
           \<and> map_of c ''citation'' = Some v)"
proof (cases "resp_json response")
  case None
  then show ?thesis by (auto simp: citation_of_response_def)
next
  case (Some data)
  have "citation_of_response response = Inr v \<longleftrightarrow>
          (\<exists>cs entry. py_getitem_str data ''citations'' = Inr cs
             \<and> py_getitem_int cs 0 = Inr entry \<and> py_getitem_str entry ''citation'' = Inr v)"
    using Some by (auto simp: citation_of_response_def split: sum.splits)
  also have "\<dots> \<longleftrightarrow> (\<exists>d c rest. data = PDict d
           \<and> map_of d ''citations'' = Some (PList (PDict c # rest))
           \<and> map_of c ''citation'' = Some v)"
    unfolding py_getitem_str_Inr py_getitem_int_0_Inr by auto
  finally show ?thesis using Some by simp
qed

lemma py_getitem_str_Inl:
  "py_getitem_str x k = Inl e \<Longrightarrow> e = KeyError \<or> e = TypeError"
  by (cases x) (auto split: option.splits)

lemma py_getitem_int_Inl:
  "py_getitem_int x i = Inl e \<Longrightarrow> e = KeyError \<or> e = IndexError \<or> e = TypeError"
  by (cases x) (auto simp: py_index_def split: if_splits sum.splits)

lemma citation_of_response_Inl:
  assumes "citation_of_response response = Inl e"
  shows "e \<in> {KeyError, IndexError, TypeError}"
proof (cases "resp_json response")
  case None
  with assms show ?thesis by (simp add: citation_of_response_def)
next
  case (Some data)
  show ?thesis
  proof (cases "py_getitem_str data ''citations''")
    case (Inl e1)
    with assms Some have "e = e1" by (simp add: citation_of_response_def)
    with py_getitem_str_Inl[OF Inl] show ?thesis by auto
  next
    case (Inr citations)
    show ?thesis
    proof (cases "py_getitem_int citations 0")
      case (Inl e2)
      with assms Some Inr have "e = e2" by (simp add: citation_of_response_def)
      with py_getitem_int_Inl[OF Inl] show ?thesis by auto
    next
      case r2: (Inr entry)
      with assms Some Inr have "py_getitem_str entry ''citation'' = Inl e"
        by (simp add: citation_of_response_def)
      from py_getitem_str_Inl[OF this] show ?thesis by auto
    qed
  qed
qed

text \<open>
  Claim C3, as amended. Given the response of the citation service: when the body is not
  JSON, \<open>get_citation_by_doi\<close> returns the body text as it is; when the body decodes to an
  object whose \<^verbatim>\<open>citations\<close> entry is a list that starts with an object holding a
  \<^verbatim>\<open>citation\<close> entry, it returns that entry; and these are the only responses on
  which it returns. On every other JSON body it raises \<^verbatim>\<open>KeyError\<close>,
  \<^verbatim>\<open>IndexError\<close> or \<^verbatim>\<open>TypeError\<close> (the exception of the failing subscript,
  which the handler for \<^verbatim>\<open>ValueError\<close> does not catch), in the world the request left.
\<close>

theorem get_citation_by_doi_cases:
  assumes "requests_get env (citeas_url env doi) w = (Inr response, w')"
  shows "(resp_json response = None \<longrightarrow>
            get_citation_by_doi env doi w = (Inr (PStr (resp_text response)), w'))
       \<and> (\<forall>d c rest v. resp_json response = Some (PDict d)
             \<and> map_of d ''citations'' = Some (PList (PDict c # rest))
             \<and> map_of c ''citation'' = Some v
             \<longrightarrow> get_citation_by_doi env doi w = (Inr v, w'))
       \<and> ((\<exists>v. get_citation_by_doi env doi w = (Inr v, w')) \<longleftrightarrow>
            resp_json response = None
            \<or> (\<exists>d c rest v. resp_json response = Some (PDict d)
                  \<and> map_of d ''citations'' = Some (PList (PDict c # rest))
                  \<and> map_of c ''citation'' = Some v))
       \<and> (\<not> (resp_json response = None
              \<or> (\<exists>d c rest v. resp_json response = Some (PDict d)
                    \<and> map_of d ''citations'' = Some (PList (PDict c # rest))
                    \<and> map_of c ''citation'' = Some v))
            \<longrightarrow> (\<exists>e \<in> {KeyError, IndexError, TypeError}.
                   get_citation_by_doi env doi w = (Inl e, w')))"
proof -
  have g: "get_citation_by_doi env doi w = (citation_of_response response, w')"
    using assms by (simp add: get_citation_by_doi_def)
  have first: "(resp_json response = None \<longrightarrow>
            get_citation_by_doi env doi w = (Inr (PStr (resp_text response)), w'))
       \<and> (\<forall>d c rest v. resp_json response = Some (PDict d)
             \<and> map_of d ''citations'' = Some (PList (PDict c # rest))
             \<and> map_of c ''citation'' = Some v
             \<longrightarrow> get_citation_by_doi env doi w = (Inr v, w'))
       \<and> ((\<exists>v. get_citation_by_doi env doi w = (Inr v, w')) \<longleftrightarrow>
            resp_json response = None
            \<or> (\<exists>d c rest v. resp_json response = Some (PDict d)
                  \<and> map_of d ''citations'' = Some (PList (PDict c # rest))
                  \<and> map_of c ''citation'' = Some v))"
    unfolding g using citation_of_response_Inr[of response] by auto
  have last: "\<exists>e \<in> {KeyError, IndexError, TypeError}. get_citation_by_doi env doi w = (Inl e, w')"
    if n: "\<not> (resp_json response = None
              \<or> (\<exists>d c rest v. resp_json response = Some (PDict d)
                    \<and> map_of d ''citations'' = Some (PList (PDict c # rest))
                    \<and> map_of c ''citation'' = Some v))"
  proof (cases "citation_of_response response")
    case (Inl e)
    from citation_of_response_Inl[OF Inl] Inl show ?thesis unfolding g by simp
  next
    case (Inr v)
    with citation_of_response_Inr[of response v] n show ?thesis by blast
  qed
  from first last show ?thesis by blast
qed

theorem get_citation_by_doi_cases_witness:
  "get_citation_by_doi (scripted_env 0 liu_2020) (PStr ''10.1038/s41586-020-2003-7'') ([], [])
     = (Inr (PStr ''Liu et al. (2020)''), ([], []))
   \<and> get_citation_by_doi (scripted_env 0 not_found) (PStr ''10.1038/s41586-020-2003-7'') ([], [])
     = (Inr (PStr ''Not Found''), ([], []))
   \<and> \<not> (resp_json error_body = None
          \<or> (\<exists>d c rest v. resp_json error_body = Some (PDict d)
                \<and> map_of d ''citations'' = Some (PList (PDict c # rest))
                \<and> map_of c ''citation'' = Some v))
   \<and> (\<exists>e \<in> {KeyError, IndexError, TypeError}.
         get_citation_by_doi (scripted_env 0 error_body) (PStr ''10.1000/182'') ([], []) = (Inl e, ([], [])))
   \<and> get_citation_by_doi (scripted_env 0 error_body) (PStr ''10.1000/182'') ([], []) = (Inl KeyError, ([], []))"
proof -
  have l: "requests_get (scripted_env 0 liu_2020)
             (citeas_url (scripted_env 0 liu_2020) (PStr ''10.1038/s41586-020-2003-7'')) ([], [])
           = (Inr liu_2020, ([], []))"
    by (simp add: scripted_env_def)
  have n: "requests_get (scripted_env 0 not_found)
             (citeas_url (scripted_env 0 not_found) (PStr ''10.1038/s41586-020-2003-7'')) ([], [])
           = (Inr not_found, ([], []))"
    by (simp add: scripted_env_def)
  have b: "requests_get (scripted_env 0 error_body)
             (citeas_url (scripted_env 0 error_body) (PStr ''10.1000/182'')) ([], [])
           = (Inr error_body, ([], []))"
    by (simp add: scripted_env_def)
  have lj: "resp_json liu_2020 = Some (PDict [(''citations'', PList [PDict [(''citation'', PStr ''Liu et al. (2020)'')]])])"
    by (simp add: liu_2020_def)
  have nj: "resp_json not_found = None" "resp_text not_found = ''Not Found''"
    by (simp_all add: not_found_def)
  have bj: "\<not> (resp_json error_body = None
          \<or> (\<exists>d c rest v. resp_json error_body = Some (PDict d)
                \<and> map_of d ''citations'' = Some (PList (PDict c # rest))
                \<and> map_of c ''citation'' = Some v))"
    by (simp add: error_body_def)
  from get_citation_by_doi_cases[OF l] lj
  have 1: "get_citation_by_doi (scripted_env 0 liu_2020) (PStr ''10.1038/s41586-020-2003-7'') ([], [])
     = (Inr (PStr ''Liu et al. (2020)''), ([], []))"
    by simp
  from get_citation_by_doi_cases[OF n] nj
  have 2: "get_citation_by_doi (scripted_env 0 not_found) (PStr ''10.1038/s41586-020-2003-7'') ([], [])
     = (Inr (PStr ''Not Found''), ([], []))"
    by simp
  from get_citation_by_doi_cases[OF b] bj
  have 3: "\<exists>e \<in> {KeyError, IndexError, TypeError}.
         get_citation_by_doi (scripted_env 0 error_body) (PStr ''10.1000/182'') ([], []) = (Inl e, ([], []))"
    by blast
  have 4: "get_citation_by_doi (scripted_env 0 error_body) (PStr ''10.1000/182'') ([], []) = (Inl KeyError, ([], []))"
    by (simp add: get_citation_by_doi_def scripted_env_def error_body_def citation_of_response_def)
  from 1 2 bj 3 4 show ?thesis by blast
qed

text \<open>
  The claim as stated (no response body makes the resolver raise) fails on the JSON body
  \<^verbatim>\<open>{"citations":[]}\<close>: the subscript \<^verbatim>\<open>[0]\<close> raises \<^verbatim>\<open>IndexError\<close>.
\<close>

theorem get_citation_by_doi_raises:
  "resp_json no_citations = Some (PDict [(''citations'', PList [])])
   \<and> get_citation_by_doi (scripted_env 0 no_citations) (PStr ''10.1000/182'') ([], [])
       = (Inl IndexError, ([], []))"
  by (simp add: get_citation_by_doi_def scripted_env_def no_citations_def citation_of_response_def
      py_index_def)

section \<open>An exhausted token budget\<close>

text \<open>
  Claim C9, as amended. When the prompt alone has 4080 tokens or more, \<open>combine_answers\<close>
  raises nothing of its own: it is the completion call on the prompt with
  \<open>max_tokens = 0\<close>, and returns whatever that call returns.
\<close>

theorem combine_answers_exhausted:
  assumes "tiktoken_encode env (literature_review_prompt research_question (join ''\<newline>\<newline>'' answers)) w
             = (Inr tokens, w1)"
    and "4080 \<le> int (length tokens)"
  shows "combine_answers env answers research_question use_gpt4 temperature w
           = openai_call env (literature_review_prompt research_question (join ''\<newline>\<newline>'' answers))
               use_gpt4 temperature 0 w1"
  using assms by (simp add: combine_answers_def count_tokens_def max_tokens_for_def Let_def)

theorem combine_answers_exhausted_witness:
  "4080 \<le> int (length (replicate 5000 (0::int)))
   \<and> combine_answers (scripted_env 5000 not_found) [''A SOURCE: B''] ''q'' True (1 / 10) ([''text''], [])
       = openai_call (scripted_env 5000 not_found)
           (literature_review_prompt ''q'' (join ''\<newline>\<newline>'' [''A SOURCE: B''])) True (1 / 10) 0 ([''text''], [])"
proof -
  have h: "tiktoken_encode (scripted_env 5000 not_found)
             (literature_review_prompt ''q'' (join ''\<newline>\<newline>'' [''A SOURCE: B''])) ([''text''], [])
           = (Inr (replicate 5000 0), ([''text''], []))"
    by (simp add: scripted_env_def)
  have b: "4080 \<le> int (length (replicate 5000 (0::int)))" by simp
  from combine_answers_exhausted[OF h b] b show ?thesis by simp
qed

text \<open>
  The claim as stated (an exhausted budget is reported as an error instead of being sent)
  fails: with a prompt of 4080 tokens the scripted completion service is called, its log
  records the request with \<open>max_tokens = 0\<close>, and its completion is returned.
\<close>

theorem combine_answers_zero_budget_call:
  "4080 \<le> int (length (replicate 4080 (0::int)))
   \<and> tiktoken_encode (scripted_env 4080 not_found)
        (literature_review_prompt ''q'' (join ''\<newline>\<newline>'' [])) ([''narrative''], [])
       = (Inr (replicate 4080 0), ([''narrative''], []))
   \<and> combine_answers (scripted_env 4080 not_found) [] ''q'' False (1 / 10) ([''narrative''], [])
       = (Inr ''narrative'', ([], [0]))"
  by (simp add: combine_answers_def count_tokens_def max_tokens_for_def scripted_env_def)

section \<open>The separator inside an answer\<close>

lemma rfind_ge:
  assumes "s = pre @ sub @ post"
  shows "int (length pre) \<le> rfind s sub"
  using occurrences_le_last[OF assms] by (simp add: rfind_def Let_def)

lemma occurrences_distinct: "distinct (occurrences sub s)"
  unfolding occurrences_def by (rule distinct_filter) (rule distinct_upt)

lemma later_occurrence:
  assumes eq: "pre @ sub @ post = pre' @ sub @ post'" and lt: "length pre < length pre'"
  shows "sublist sub (tl (sub @ post))"
proof -
  from eq lt obtain x where x: "pre' = pre @ x"
    by (metis append_eq_append_conv_if append_take_drop_id less_imp_le_nat)
  with lt have ne: "x \<noteq> []" by auto
  from eq x have "sub @ post = x @ sub @ post'" by simp
  then have "tl (sub @ post) = tl x @ sub @ post'" using ne by simp
  then show ?thesis unfolding sublist_def by blast
qed

lemma earlier_occurrence:
  assumes eq: "pre @ sub @ post = pre' @ sub @ post'" and lt: "length pre' < length pre"
    and ne: "sub \<noteq> []"
  shows "sublist sub (pre @ butlast sub)"
proof -
  from eq lt obtain x where x: "pre = pre' @ x"
    by (metis append_eq_append_conv_if append_take_drop_id less_imp_le_nat)
  with lt have xne: "x \<noteq> []" by auto
  from eq x have e: "x @ sub @ post = sub @ post'" by simp
  have len: "length sub \<le> length (x @ butlast sub)" using xne ne
    by (cases x) simp_all
  have "take (length sub) (x @ sub @ post) = sub" using e by simp
  moreover have "take (length sub) (x @ sub @ post) = take (length sub) (x @ butlast sub)"
  proof -
    have "x @ sub @ post = (x @ butlast sub) @ (last sub # post)" using ne by simp
    then show ?thesis using len by (metis append_eq_conv_conj take_append take_all_iff
          append.right_neutral diff_is_0_eq take_0)
  qed
  ultimately have "prefix sub (x @ butlast sub)"
    by (metis take_is_prefix)
  then obtain r where "x @ butlast sub = sub @ r" unfolding prefix_def by blast
  then have "pre @ butlast sub = pre' @ sub @ r" using x by simp
  then show ?thesis unfolding sublist_def by blast
qed


lemma split_sep_suffix:
  assumes "xs1 @ xs2 = '' SOURCE: ''" and "prefix xs2 '' SOURCE:''"
  shows "xs2 = [] \<or> xs1 = '' SOURCE:''"
  using assms by (auto simp: append_eq_Cons_conv Cons_eq_append_conv prefix_Cons)

lemma split_sep_prefix:
  assumes "xs1 @ xs2 = '' SOURCE: ''" and "suffix xs1 ''SOURCE: ''"
  shows "xs1 = [] \<or> xs2 = ''SOURCE: ''"
  using assms by (auto simp: append_eq_Cons_conv Cons_eq_append_conv suffix_Cons)

lemma marker_not_later:
  assumes "\<not> sublist ''SOURCE: '' citation"
  shows "\<not> sublist ''SOURCE: '' (tl (''SOURCE: '' @ citation))"
  using assms by (simp add: sublist_Cons_right prefix_Cons)

lemma singleton_list:
  assumes "distinct xs" and "set xs = {x}"
  shows "xs = [x]"
proof (cases xs)
  case Nil
  with assms(2) show ?thesis by simp
next
  case (Cons y ys)
  with assms(2) have y: "y = x" by auto
  have "ys = []"
  proof (cases ys)
    case Nil
    then show ?thesis .
  next
    case (Cons z zs)
    with \<open>xs = y # ys\<close> assms(2) have "z = x" by auto
    with y \<open>xs = y # ys\<close> Cons assms(1) show ?thesis by simp
  qed
  with Cons y show ?thesis by simp
qed

lemma marker_last:
  assumes c: "\<not> sublist ''SOURCE: '' citation"
  shows "rfind (answer_with_citation answer citation) ''SOURCE: '' = int (length answer) + 1"
proof -
  let ?s = "answer_with_citation answer citation"
  have s: "?s = (answer @ '' '') @ ''SOURCE: '' @ citation" by (simp add: answer_with_citation_def)
  have "length pre' \<le> length (answer @ '' '')" if p: "?s = pre' @ ''SOURCE: '' @ post'" for pre' post'
  proof (rule ccontr)
    assume "\<not> length pre' \<le> length (answer @ '' '')"
    then have lt: "length (answer @ '' '') < length pre'" by simp
    have eq: "(answer @ '' '') @ ''SOURCE: '' @ citation = pre' @ ''SOURCE: '' @ post'" using s p by simp
    from later_occurrence[OF eq lt] marker_not_later[OF c] show False by simp
  qed
  from rfind_last_occurrence[OF s this] show ?thesis by simp
qed


text \<open>
  Claim C6, as amended. In every answer \<open>answer_with_citation answer citation\<close> the
  separator \<^verbatim>\<open> SOURCE: \<close> occurs; its last occurrence starts at or after the end of
  the completion result, so the text before that occurrence is not empty whenever the
  completion result is not empty.
\<close>

theorem separator_after_answer:
  "sublist '' SOURCE: '' (answer_with_citation answer citation)
   \<and> int (length answer) \<le> rfind (answer_with_citation answer citation) '' SOURCE: ''
   \<and> (answer \<noteq> [] \<longrightarrow>
        take (nat (rfind (answer_with_citation answer citation) '' SOURCE: ''))
          (answer_with_citation answer citation) \<noteq> [])"
proof -
  let ?s = "answer_with_citation answer citation"
  have s: "?s = answer @ '' SOURCE: '' @ citation" by (simp add: answer_with_citation_def)
  have 1: "sublist '' SOURCE: '' ?s" unfolding sublist_def using s by blast
  have 2: "int (length answer) \<le> rfind ?s '' SOURCE: ''" using rfind_ge[OF s] .
  have 3: "take (nat (rfind ?s '' SOURCE: '')) ?s \<noteq> []" if "answer \<noteq> []"
  proof -
    have "0 < length answer" using that by simp
    with 2 have "0 < nat (rfind ?s '' SOURCE: '')" by linarith
    moreover have "?s \<noteq> []" using s by simp
    ultimately show ?thesis by simp
  qed
  from 1 2 3 show ?thesis by blast
qed

theorem separator_after_answer_witness:
  "''AI improves diagnosis.'' \<noteq> []
   \<and> take (nat (rfind (answer_with_citation ''AI improves diagnosis.'' ''Smith (2020)'') '' SOURCE: ''))
       (answer_with_citation ''AI improves diagnosis.'' ''Smith (2020)'') \<noteq> []"
proof -
  have h: "''AI improves diagnosis.'' \<noteq> []" by simp
  from separator_after_answer[of "''AI improves diagnosis.''" "''Smith (2020)''"] h
  show ?thesis by blast
qed

text \<open>
  The claim as stated fails for the empty completion result, which is not the sentinel: the
  paper is kept, the answer starts with the separator, and nothing precedes its last
  occurrence.
\<close>

theorem empty_answer_kept:
  "[] \<noteq> default_answer
   \<and> extract_answers_from_papers (scripted_env 0 not_found) [PDict [(''url'', PStr ''Smith (2020)'')]]
       ''q'' False 0 150 ([[]], [])
       = (Inr [answer_with_citation [] ''Smith (2020)''], ([], [150]))
   \<and> rfind (answer_with_citation [] ''Smith (2020)'') '' SOURCE: '' = 0
   \<and> take (nat (rfind (answer_with_citation [] ''Smith (2020)'') '' SOURCE: ''))
       (answer_with_citation [] ''Smith (2020)'') = []"
proof -
  have 1: "[] \<noteq> default_answer" by (simp add: default_answer_def)
  have 2: "extract_answers_from_papers (scripted_env 0 not_found) [PDict [(''url'', PStr ''Smith (2020)'')]]
       ''q'' False 0 150 ([[]], [])
       = (Inr [answer_with_citation [] ''Smith (2020)''], ([], [150]))"
    by (simp add: extract_answers_from_papers_def process_paper_def paper_citation_def
        scripted_env_def py_str_def default_answer_def)
  have 3: "rfind (answer_with_citation [] ''Smith (2020)'') '' SOURCE: '' = 0" by code_simp
  from 1 2 3 show ?thesis by simp
qed

lemma no_separator_before:
  assumes "\<not> sublist '' SOURCE: '' answer" and "\<not> suffix '' SOURCE:'' answer"
  shows "\<not> sublist '' SOURCE: '' (answer @ '' SOURCE:'')"
proof
  assume "sublist '' SOURCE: '' (answer @ '' SOURCE:'')"
  then consider "sublist '' SOURCE: '' answer" | "sublist '' SOURCE: '' '' SOURCE:''"
    | xs1 xs2 where "'' SOURCE: '' = xs1 @ xs2" "suffix xs1 answer" "prefix xs2 '' SOURCE:''"
    unfolding sublist_append by blast
  then show False
  proof cases
    case 1
    with assms(1) show False by simp
  next
    case 2
    then have "length '' SOURCE: '' \<le> length '' SOURCE:''" by (rule sublist_length_le)
    then show False by simp
  next
    case 3
    from split_sep_suffix[OF 3(1)[symmetric] 3(3)]
    have "suffix '' SOURCE: '' answer \<or> suffix '' SOURCE:'' answer"
      using 3(1,2) by auto
    then show False
    proof
      assume "suffix '' SOURCE: '' answer"
      then have "sublist '' SOURCE: '' answer" by (rule suffix_imp_sublist)
      with assms(1) show False by simp
    next
      assume "suffix '' SOURCE:'' answer"
      with assms(2) show False by simp
    qed
  qed
qed

lemma no_separator_after:
  assumes "\<not> sublist '' SOURCE: '' citation" and "\<not> prefix ''SOURCE: '' citation"
  shows "\<not> sublist '' SOURCE: '' (''SOURCE: '' @ citation)"
proof
  assume "sublist '' SOURCE: '' (''SOURCE: '' @ citation)"
  then consider "sublist '' SOURCE: '' ''SOURCE: ''" | "sublist '' SOURCE: '' citation"
    | xs1 xs2 where "'' SOURCE: '' = xs1 @ xs2" "suffix xs1 ''SOURCE: ''" "prefix xs2 citation"
    unfolding sublist_append by blast
  then show False
  proof cases
    case 1
    then have "length '' SOURCE: '' \<le> length ''SOURCE: ''" by (rule sublist_length_le)
    then show False by simp
  next
    case 2
    with assms(1) show False by simp
  next
    case 3
    from split_sep_prefix[OF 3(1)[symmetric] 3(2)]
    have "prefix '' SOURCE: '' citation \<or> prefix ''SOURCE: '' citation"
      using 3(1,3) by auto
    then show False
    proof
      assume "prefix '' SOURCE: '' citation"
      then have "sublist '' SOURCE: '' citation" by (rule prefix_imp_sublist)
      with assms(1) show False by simp
    next
      assume "prefix ''SOURCE: '' citation"
      with assms(2) show False by simp
    qed
  qed
qed

lemma separator_alone:
  assumes "\<not> sublist '' SOURCE: '' answer" and "\<not> suffix '' SOURCE:'' answer"
    and "\<not> sublist '' SOURCE: '' citation" and "\<not> prefix ''SOURCE: '' citation"
  shows "occurrences '' SOURCE: '' (answer_with_citation answer citation) = [length answer]"
proof (rule singleton_list[OF occurrences_distinct])
  let ?s = "answer_with_citation answer citation"
  have s: "?s = answer @ '' SOURCE: '' @ citation" by (simp add: answer_with_citation_def)
  show "set (occurrences '' SOURCE: '' ?s) = {length answer}"
  proof (intro equalityI subsetI)
    fix i assume "i \<in> set (occurrences '' SOURCE: '' ?s)"
    then obtain pre post where p: "?s = pre @ '' SOURCE: '' @ post" and i: "length pre = i"
      unfolding occurrences_iff by blast
    have eq: "answer @ '' SOURCE: '' @ citation = pre @ '' SOURCE: '' @ post" using s p by simp
    have "\<not> length pre < length answer"
    proof
      assume "length pre < length answer"
      from earlier_occurrence[OF eq this] have "sublist '' SOURCE: '' (answer @ '' SOURCE:'')" by simp
      with no_separator_before[OF assms(1,2)] show False by simp
    qed
    moreover have "\<not> length answer < length pre"
    proof
      assume "length answer < length pre"
      from later_occurrence[OF eq this] have "sublist '' SOURCE: '' (''SOURCE: '' @ citation)" by simp
      with no_separator_after[OF assms(3,4)] show False by simp
    qed
    ultimately show "i \<in> {length answer}" using i by simp
  next
    fix i assume "i \<in> {length answer}"
    then show "i \<in> set (occurrences '' SOURCE: '' ?s)"
      unfolding occurrences_iff using s by blast
  qed
qed

lemma separator_again:
  assumes "sublist '' SOURCE: '' answer \<or> suffix '' SOURCE:'' answer
           \<or> sublist '' SOURCE: '' citation \<or> prefix ''SOURCE: '' citation"
  shows "\<exists>i \<in> set (occurrences '' SOURCE: '' (answer_with_citation answer citation)). i \<noteq> length answer"
proof -
  let ?s = "answer_with_citation answer citation"
  have s: "?s = answer @ '' SOURCE: '' @ citation" by (simp add: answer_with_citation_def)
  from assms consider (a) "sublist '' SOURCE: '' answer" | (b) "suffix '' SOURCE:'' answer"
    | (c) "sublist '' SOURCE: '' citation" | (d) "prefix ''SOURCE: '' citation"
    by blast
  then show ?thesis
  proof cases
    case a
    then obtain p q where pq: "answer = p @ '' SOURCE: '' @ q" unfolding sublist_def by blast
    then have "?s = p @ '' SOURCE: '' @ (q @ '' SOURCE: '' @ citation)" using s by simp
    then have "length p \<in> set (occurrences '' SOURCE: '' ?s)" unfolding occurrences_iff by blast
    moreover have "length p \<noteq> length answer" using pq by simp
    ultimately show ?thesis by blast
  next
    case b
    then obtain z where z: "answer = z @ '' SOURCE:''" unfolding suffix_def by blast
    then have "?s = z @ '' SOURCE: '' @ (''SOURCE: '' @ citation)" using s by simp
    then have "length z \<in> set (occurrences '' SOURCE: '' ?s)" unfolding occurrences_iff by blast
    moreover have "length z \<noteq> length answer" using z by simp
    ultimately show ?thesis by blast
  next
    case c
    then obtain p q where pq: "citation = p @ '' SOURCE: '' @ q" unfolding sublist_def by blast
    then have "?s = (answer @ '' SOURCE: '' @ p) @ '' SOURCE: '' @ q" using s by simp
    then have "length (answer @ '' SOURCE: '' @ p) \<in> set (occurrences '' SOURCE: '' ?s)"
      unfolding occurrences_iff by blast
    moreover have "length (answer @ '' SOURCE: '' @ p) \<noteq> length answer" by simp
    ultimately show ?thesis by blast
  next
    case d
    then obtain z where z: "citation = ''SOURCE: '' @ z" unfolding prefix_def by blast
    then have "?s = (answer @ '' SOURCE:'') @ '' SOURCE: '' @ z" using s by simp
    then have "length (answer @ '' SOURCE:'') \<in> set (occurrences '' SOURCE: '' ?s)"
      unfolding occurrences_iff by blast
    moreover have "length (answer @ '' SOURCE:'') \<noteq> length answer" by simp
    ultimately show ?thesis by blast
  qed
qed

lemma separator_count:
  "length (occurrences '' SOURCE: '' (answer_with_citation answer citation)) = 1 \<longleftrightarrow>
     \<not> sublist '' SOURCE: '' answer \<and> \<not> suffix '' SOURCE:'' answer
     \<and> \<not> sublist '' SOURCE: '' citation \<and> \<not> prefix ''SOURCE: '' citation"
proof
  let ?s = "answer_with_citation answer citation"
  assume one: "length (occurrences '' SOURCE: '' ?s) = 1"
  then obtain x where x: "occurrences '' SOURCE: '' ?s = [x]"
    by (cases "occurrences '' SOURCE: '' ?s") auto
  have "?s = answer @ '' SOURCE: '' @ citation" by (simp add: answer_with_citation_def)
  then have "length answer \<in> set (occurrences '' SOURCE: '' ?s)" unfolding occurrences_iff by blast
  with x have xa: "x = length answer" by simp
  show "\<not> sublist '' SOURCE: '' answer \<and> \<not> suffix '' SOURCE:'' answer
     \<and> \<not> sublist '' SOURCE: '' citation \<and> \<not> prefix ''SOURCE: '' citation"
  proof (rule ccontr)
    assume "\<not> (\<not> sublist '' SOURCE: '' answer \<and> \<not> suffix '' SOURCE:'' answer
     \<and> \<not> sublist '' SOURCE: '' citation \<and> \<not> prefix ''SOURCE: '' citation)"
    then have "sublist '' SOURCE: '' answer \<or> suffix '' SOURCE:'' answer
           \<or> sublist '' SOURCE: '' citation \<or> prefix ''SOURCE: '' citation" by blast
    from separator_again[OF this] x xa show False by simp
  qed
next
  assume "\<not> sublist '' SOURCE: '' answer \<and> \<not> suffix '' SOURCE:'' answer
     \<and> \<not> sublist '' SOURCE: '' citation \<and> \<not> prefix ''SOURCE: '' citation"
  then have "occurrences '' SOURCE: '' (answer_with_citation answer citation) = [length answer]"
    using separator_alone by blast
  then show "length (occurrences '' SOURCE: '' (answer_with_citation answer citation)) = 1" by simp
qed

lemma marker_in_citation:
  assumes "sublist ''SOURCE: '' citation"
  shows "drop (nat (rfind (answer_with_citation answer citation) ''SOURCE: '' + 8))
           (answer_with_citation answer citation) \<noteq> citation"
proof -
  let ?s = "answer_with_citation answer citation"
  from assms obtain p q where c: "citation = p @ ''SOURCE: '' @ q" unfolding sublist_def by blast
  have s: "?s = (answer @ '' SOURCE: '' @ p) @ ''SOURCE: '' @ q"
    by (simp add: answer_with_citation_def c)
  have "int (length (answer @ '' SOURCE: '' @ p)) \<le> rfind ?s ''SOURCE: ''"
    using rfind_ge[OF s] .
  then have n: "length answer + 9 + length p + 8 \<le> nat (rfind ?s ''SOURCE: '' + 8)" by simp
  have "length ?s = length answer + 9 + length p + 8 + length q" unfolding s by simp
  with n have "length (drop (nat (rfind ?s ''SOURCE: '' + 8)) ?s) \<le> length q" by simp
  moreover have "length q < length citation" using c by simp
  ultimately have "length (drop (nat (rfind ?s ''SOURCE: '' + 8)) ?s) \<noteq> length citation"
    by linarith
  then show ?thesis by metis
qed


text \<open>
  Claim C8, as amended. In every answer \<open>answer_with_citation answer citation\<close> the
  separator \<^verbatim>\<open> SOURCE: \<close> occurs. It occurs exactly once, and then at the end of the
  completion result, if and only if no second occurrence exists: none inside the completion
  result, none inside the citation, and none completed across a junction (a completion
  result ending in \<^verbatim>\<open> SOURCE:\<close>, or a citation starting with \<^verbatim>\<open>SOURCE: \<close>).
  The citation is everything after the last occurrence of the marker \<^verbatim>\<open>SOURCE: \<close>,
  which is what \<open>extract_citations\<close> returns for the answer, if and only if the citation
  does not itself contain the marker.
\<close>

theorem separator_unique:
  "sublist '' SOURCE: '' (answer_with_citation answer citation)
   \<and> (length (occurrences '' SOURCE: '' (answer_with_citation answer citation)) = 1 \<longleftrightarrow>
        \<not> sublist '' SOURCE: '' answer \<and> \<not> suffix '' SOURCE:'' answer
        \<and> \<not> sublist '' SOURCE: '' citation \<and> \<not> prefix ''SOURCE: '' citation)
   \<and> (length (occurrences '' SOURCE: '' (answer_with_citation answer citation)) = 1 \<longrightarrow>
        occurrences '' SOURCE: '' (answer_with_citation answer citation) = [length answer])
   \<and> (drop (nat (rfind (answer_with_citation answer citation) ''SOURCE: '' + 8))
          (answer_with_citation answer citation) = citation
        \<longleftrightarrow> \<not> sublist ''SOURCE: '' citation)
   \<and> (extract_citations [answer_with_citation answer citation] = [citation]
        \<longleftrightarrow> \<not> sublist ''SOURCE: '' citation)"
proof -
  let ?s = "answer_with_citation answer citation"
  have s: "?s = answer @ '' SOURCE: '' @ citation" by (simp add: answer_with_citation_def)
  have 1: "sublist '' SOURCE: '' ?s" unfolding sublist_def using s by blast
  note 2 = separator_count[of answer citation]
  have 3: "occurrences '' SOURCE: '' ?s = [length answer]"
    if "length (occurrences '' SOURCE: '' ?s) = 1"
    using that 2 separator_alone by blast
  have m: "?s = (answer @ '' '') @ ''SOURCE: '' @ citation" using s by simp
  have p: "rfind ?s ''SOURCE: '' \<noteq> - 1"
    using rfind_ge[OF m] by simp
  have e: "extract_citations [?s] = [drop (nat (rfind ?s ''SOURCE: '' + 8)) ?s]"
    using p by (simp add: extract_citations_Cons extract_citations_Nil)
  have 4: "drop (nat (rfind ?s ''SOURCE: '' + 8)) ?s = citation \<longleftrightarrow> \<not> sublist ''SOURCE: '' citation"
  proof
    assume "drop (nat (rfind ?s ''SOURCE: '' + 8)) ?s = citation"
    with marker_in_citation[of citation answer] show "\<not> sublist ''SOURCE: '' citation" by blast
  next
    assume c: "\<not> sublist ''SOURCE: '' citation"
    have "nat (rfind ?s ''SOURCE: '' + 8) = length answer + 9" using marker_last[OF c, of answer] by simp
    moreover have "drop (length answer + 9) ?s = citation" by (simp add: s)
    ultimately show "drop (nat (rfind ?s ''SOURCE: '' + 8)) ?s = citation" by simp
  qed
  have 5: "extract_citations [?s] = [citation] \<longleftrightarrow> \<not> sublist ''SOURCE: '' citation"
    unfolding e using 4 by simp
  from 1 2 3 4 5 show ?thesis by blast
qed

theorem separator_unique_witness:
  "length (occurrences '' SOURCE: '' (answer_with_citation ''Use OPEN-SOURCE:tools'' ''RESOURCE:42'')) = 1
   \<and> occurrences '' SOURCE: '' (answer_with_citation ''Use OPEN-SOURCE:tools'' ''RESOURCE:42'')
       = [length ''Use OPEN-SOURCE:tools'']
   \<and> \<not> sublist ''SOURCE: '' ''RESOURCE:42''
   \<and> extract_citations [answer_with_citation ''Use OPEN-SOURCE:tools'' ''RESOURCE:42'']
       = [''RESOURCE:42'']"
proof -
  have a: "\<not> sublist '' SOURCE: '' ''Use OPEN-SOURCE:tools''" by code_simp
  have b: "\<not> suffix '' SOURCE:'' ''Use OPEN-SOURCE:tools''" by code_simp
  have c: "\<not> sublist '' SOURCE: '' ''RESOURCE:42''" by code_simp
  have d: "\<not> prefix ''SOURCE: '' ''RESOURCE:42''" by code_simp
  have m: "\<not> sublist ''SOURCE: '' ''RESOURCE:42''" by code_simp
  from separator_unique[of "''Use OPEN-SOURCE:tools''" "''RESOURCE:42''"] a b c d m
  show ?thesis by blast
qed

text \<open>
  The claim as stated fails when the citation itself contains the separator: it then occurs
  twice in the answer, and the text after the last marker is only the tail of the citation.
\<close>

theorem separator_twice:
  "''AI improves diagnosis.'' \<noteq> default_answer
   \<and> occurrences '' SOURCE: ''
        (answer_with_citation ''AI improves diagnosis.'' ''Smith (2020) SOURCE: PubMed'') = [22, 43]
   \<and> drop (nat (rfind (answer_with_citation ''AI improves diagnosis.'' ''Smith (2020) SOURCE: PubMed'')
                  ''SOURCE: '' + 8))
        (answer_with_citation ''AI improves diagnosis.'' ''Smith (2020) SOURCE: PubMed'') = ''PubMed''
   \<and> extract_citations [answer_with_citation ''AI improves diagnosis.'' ''Smith (2020) SOURCE: PubMed'']
       = [''PubMed'']"
  by code_simp

section \<open>The answer extractor\<close>

lemma py_get_dict:
  "py_get paper k d = Inr v \<Longrightarrow> \<exists>kvs. paper = PDict kvs"
  by (cases paper) simp_all

lemma py_get_other_key:
  "py_get paper k d = Inr v \<Longrightarrow> \<exists>v'. py_get paper k' d' = Inr v'"
  by (cases paper) simp_all

lemma process_paper_ok:
  assumes "py_get paper ''abstract'' (PStr []) = Inr abstract"
    and "paper_citation env paper w = (Inr citation, w1)"
    and "openai_call env (extract_answer_prompt rq (py_str env abstract)) g t m w1 = (Inr answer, w2)"
  shows "process_paper env rq g t m paper w =
           (Inr (if answer = default_answer then None
                 else Some (answer_with_citation answer (py_str env citation))), w2)"
proof -
  from py_get_other_key[OF assms(1)] obtain title where "py_get paper ''title'' (PStr []) = Inr title"
    by blast
  with assms show ?thesis by (simp add: process_paper_def)
qed

lemma process_paper_str: "process_paper env rq g t m (PStr s) w = (Inl AttributeError, w)"
  by (simp add: process_paper_def)

lemma extract_loop_acc:
  "extract_loop env rq g t m papers acc w =
     (case extract_loop env rq g t m papers [] w of
        (Inl e, w') \<Rightarrow> (Inl e, w')
      | (Inr new, w') \<Rightarrow> (Inr (acc @ new), w'))"
proof (induction papers arbitrary: acc w)
  case Nil
  show ?case by simp
next
  case (Cons paper papers)
  obtain r w1 where p: "process_paper env rq g t m paper w = (r, w1)" by (cases "process_paper env rq g t m paper w")
  show ?case
  proof (cases r)
    case (Inl e)
    with p show ?thesis by simp
  next
    case (Inr kept)
    show ?thesis
    proof (cases kept)
      case None
      with p Inr show ?thesis using Cons.IH[of acc w1] by simp
    next
      case (Some a)
      with p Inr show ?thesis
        using Cons.IH[of "acc @ [a]" w1] Cons.IH[of "[a]" w1]
        by (auto split: prod.splits sum.splits)
    qed
  qed
qed

lemma extract_Nil: "extract_answers_from_papers env [] rq g t m w = (Inr [], w)"
  by (simp add: extract_answers_from_papers_def)

lemma extract_Cons:
  "extract_answers_from_papers env (paper # papers) rq g t m w =
     (case process_paper env rq g t m paper w of
        (Inl e, w1) \<Rightarrow> (Inl e, w1)
      | (Inr kept, w1) \<Rightarrow>
          (case extract_answers_from_papers env papers rq g t m w1 of
             (Inl e, w2) \<Rightarrow> (Inl e, w2)
           | (Inr rest, w2) \<Rightarrow> (Inr ((case kept of None \<Rightarrow> [] | Some a \<Rightarrow> [a]) @ rest), w2)))"
proof -
  obtain r w1 where p: "process_paper env rq g t m paper w = (r, w1)" by (cases "process_paper env rq g t m paper w")
  show ?thesis
  proof (cases r)
    case (Inl e)
    with p show ?thesis by (simp add: extract_answers_from_papers_def)
  next
    case (Inr kept)
    show ?thesis
    proof (cases kept)
      case None
      with p Inr show ?thesis
        by (simp add: extract_answers_from_papers_def split: prod.splits sum.splits)
    next
      case (Some a)
      with p Inr show ?thesis
        using extract_loop_acc[of env rq g t m papers "[a]" w1]
        by (simp add: extract_answers_from_papers_def split: prod.splits sum.splits)
    qed
  qed
qed

lemma extract_append:
  "extract_answers_from_papers env (xs @ ys) rq g t m w =
     (case extract_answers_from_papers env xs rq g t m w of
        (Inl e, w1) \<Rightarrow> (Inl e, w1)
      | (Inr first, w1) \<Rightarrow>
          (case extract_answers_from_papers env ys rq g t m w1 of
             (Inl e, w2) \<Rightarrow> (Inl e, w2)
           | (Inr rest, w2) \<Rightarrow> (Inr (first @ rest), w2)))"
proof (induction xs arbitrary: w)
  case Nil
  show ?case by (simp add: extract_Nil split: prod.splits sum.splits)
next
  case (Cons x xs)
  show ?case
    unfolding append_Cons extract_Cons[of env x] Cons.IH
    by (simp split: prod.splits sum.splits)
qed


lemmas run_simps =
  extract_answers_from_papers_def process_paper_def paper_citation_def get_citation_by_doi_def
  citation_of_response_def citeas_url_def scripted_env_def py_str_def py_index_def
  default_answer_def answer_with_citation_def
  paper_smith_def paper_jones_def paper_liu_def liu_2020_def not_found_def

lemma sentinel_has_no_separator:
  "\<not> sublist '' SOURCE: '' (''No answer found.'' @ butlast '' SOURCE: '')"
  by code_simp

lemma leading_text_not_sentinel:
  assumes "answer \<noteq> ''No answer found.''"
  shows "take (nat (rfind (answer @ '' SOURCE: '' @ citation) '' SOURCE: ''))
           (answer @ '' SOURCE: '' @ citation) \<noteq> ''No answer found.''"
proof
  let ?s = "answer @ '' SOURCE: '' @ citation"
  assume t: "take (nat (rfind ?s '' SOURCE: '')) ?s = ''No answer found.''"
  have "sublist '' SOURCE: '' ?s" unfolding sublist_def by blast
  from rfind_present[OF this] obtain pre post where
    s: "?s = pre @ '' SOURCE: '' @ post" and r: "rfind ?s '' SOURCE: '' = int (length pre)"
    by blast
  have "take (nat (rfind ?s '' SOURCE: '')) ?s = pre"
    unfolding r by (subst s) simp
  with t have pre: "pre = ''No answer found.''" by simp
  have ge: "length answer \<le> length pre" using rfind_ge[of ?s answer "'' SOURCE: ''" citation] r by simp
  have eq: "pre @ '' SOURCE: '' @ post = answer @ '' SOURCE: '' @ citation" using s by simp
  show False
  proof (cases "length answer < length pre")
    case True
    from earlier_occurrence[OF eq True] have "sublist '' SOURCE: '' (pre @ butlast '' SOURCE: '')"
      by simp
    with sentinel_has_no_separator show False unfolding pre by simp
  next
    case False
    with ge have "length answer = length pre" by simp
    with eq have "answer = pre" by simp
    with pre assms show False by simp
  qed
qed

text \<open>
  Claim C2. Take a paper whose abstract can be read, whose citation resolves to
  \<open>citation\<close>, and for which the completion service returns \<open>answer\<close>. Alone, the paper
  gives no answer when \<open>answer\<close> is exactly \<^verbatim>\<open>No answer found.\<close>, and otherwise exactly
  the answer \<open>answer\<close>, \<^verbatim>\<open> SOURCE: \<close>, citation. In front of other papers it contributes
  the same and the remaining papers are processed from the world the completion call left.
  So the sentinel followed by the separator and the citation is never emitted for the paper,
  and in an emitted answer the text before the last occurrence of the separator is never the
  sentinel.
\<close>

theorem extractor_discards_sentinel:
  assumes "py_get paper ''abstract'' (PStr []) = Inr abstract"
    and "paper_citation env paper w = (Inr citation, w1)"
    and "openai_call env (extract_answer_prompt rq (py_str env abstract)) g t m w1 = (Inr answer, w2)"
  shows "extract_answers_from_papers env [paper] rq g t m w =
           (Inr (if answer = ''No answer found.'' then []
                 else [answer @ '' SOURCE: '' @ py_str env citation]), w2)
       \<and> extract_answers_from_papers env (paper # papers) rq g t m w =
           (case extract_answers_from_papers env papers rq g t m w2 of
              (Inl e, w3) \<Rightarrow> (Inl e, w3)
            | (Inr rest, w3) \<Rightarrow>
                (Inr ((if answer = ''No answer found.'' then []
                       else [answer @ '' SOURCE: '' @ py_str env citation]) @ rest), w3))
       \<and> ''No answer found.'' @ '' SOURCE: '' @ py_str env citation
           \<notin> set (if answer = ''No answer found.'' then []
                    else [answer @ '' SOURCE: '' @ py_str env citation])
       \<and> (\<forall>a \<in> set (if answer = ''No answer found.'' then []
                       else [answer @ '' SOURCE: '' @ py_str env citation]).
            take (nat (rfind a '' SOURCE: '')) a \<noteq> ''No answer found.'')"
proof -
  note p = process_paper_ok[OF assms, unfolded default_answer_def answer_with_citation_def]
  have 1: "extract_answers_from_papers env [paper] rq g t m w =
           (Inr (if answer = ''No answer found.'' then []
                 else [answer @ '' SOURCE: '' @ py_str env citation]), w2)"
    unfolding extract_Cons p by (simp add: extract_Nil)
  have 2: "extract_answers_from_papers env (paper # papers) rq g t m w =
           (case extract_answers_from_papers env papers rq g t m w2 of
              (Inl e, w3) \<Rightarrow> (Inl e, w3)
            | (Inr rest, w3) \<Rightarrow>
                (Inr ((if answer = ''No answer found.'' then []
                       else [answer @ '' SOURCE: '' @ py_str env citation]) @ rest), w3))"
    unfolding extract_Cons p by (simp split: prod.splits sum.splits)
  have 3: "''No answer found.'' @ '' SOURCE: '' @ py_str env citation
           \<notin> set (if answer = ''No answer found.'' then []
                    else [answer @ '' SOURCE: '' @ py_str env citation])"
    by simp
  have 4: "\<forall>a \<in> set (if answer = ''No answer found.'' then []
                       else [answer @ '' SOURCE: '' @ py_str env citation]).
            take (nat (rfind a '' SOURCE: '')) a \<noteq> ''No answer found.''"
    using leading_text_not_sentinel[of answer "py_str env citation"] by simp
  from 1 2 3 4 show ?thesis by blast
qed

theorem extractor_discards_sentinel_witness:
  "extract_answers_from_papers (scripted_env 0 liu_2020) [paper_liu] ''q'' False 0 150
     ([''No answer found.''], []) = (Inr [], ([], [150]))
   \<and> extract_answers_from_papers (scripted_env 0 liu_2020) [paper_liu] ''q'' False 0 150
     ([''No answer found''], []) = (Inr [''No answer found SOURCE: Liu et al. (2020)''], ([], [150]))"
proof -
  have a: "py_get paper_liu ''abstract'' (PStr []) = Inr (PStr ''A protein interaction map.'')"
    by (simp add: paper_liu_def)
  have c: "paper_citation (scripted_env 0 liu_2020) paper_liu w = (Inr (PStr ''Liu et al. (2020)''), w)" for w
    by (simp add: run_simps)
  have o: "openai_call (scripted_env 0 liu_2020)
             (extract_answer_prompt ''q'' (py_str (scripted_env 0 liu_2020) (PStr ''A protein interaction map.'')))
             False 0 150 ([r], []) = (Inr r, ([], [150]))" for r
    by (simp add: scripted_env_def)
  from extractor_discards_sentinel[OF a c o, of "''No answer found.''" "[]"]
       extractor_discards_sentinel[OF a c o, of "''No answer found''" "[]"]
  show ?thesis by (simp add: py_str_def)
qed




section \<open>The orchestrator\<close>

lemma extract_manual:
  "extract_answers_from_papers env (top_papers @ PStr s # rest) rq g t m w =
     (case extract_answers_from_papers env top_papers rq g t m w of
        (Inl e, w1) \<Rightarrow> (Inl e, w1)
      | (Inr first, w1) \<Rightarrow> (Inl AttributeError, w1))"
  unfolding extract_append extract_Cons[of env "PStr s"] process_paper_str
  by (simp split: prod.splits sum.splits)

lemma literature_review_extract_error:
  assumes "extract_answers_from_papers env (top_papers @ manualAnswers) rq False 0 150 w = (Inl e, w1)"
  shows "literature_review env rq top_papers manualAnswers w = (Inl e, w1)"
  using assms by (simp add: literature_review_def)

text \<open>
  Claim C10. With at least one manually supplied answer (a plain string, as
  \<^verbatim>\<open>extract_answers\<close> returns them), \<open>literature_review\<close> never returns a review: it
  raises. When the papers before the manual answers are all processed without an
  exception, the exception is the \<^verbatim>\<open>AttributeError\<close> of \<^verbatim>\<open>.get("abstract")\<close> on
  the first manual answer, raised in the world those papers left.
\<close>

theorem manual_answers_raise:
  assumes "manualAnswers \<noteq> []"
  shows "(\<exists>e w1. literature_review env rq top_papers (map PStr manualAnswers) w = (Inl e, w1))
       \<and> (\<forall>answers w1. extract_answers_from_papers env top_papers rq False 0 150 w = (Inr answers, w1)
             \<longrightarrow> literature_review env rq top_papers (map PStr manualAnswers) w
                   = (Inl AttributeError, w1))"
proof -
  from assms obtain s rest where m: "map PStr manualAnswers = PStr s # map PStr rest"
    by (cases manualAnswers) auto
  obtain r w1 where x: "extract_answers_from_papers env top_papers rq False 0 150 w = (r, w1)"
    by (cases "extract_answers_from_papers env top_papers rq False 0 150 w")
  show ?thesis
  proof (cases r)
    case (Inl e)
    with x have "extract_answers_from_papers env (top_papers @ map PStr manualAnswers) rq False 0 150 w
                   = (Inl e, w1)"
      unfolding m extract_manual by simp
    from literature_review_extract_error[OF this] x Inl show ?thesis by simp
  next
    case (Inr first)
    with x have "extract_answers_from_papers env (top_papers @ map PStr manualAnswers) rq False 0 150 w
                   = (Inl AttributeError, w1)"
      unfolding m extract_manual by simp
    from literature_review_extract_error[OF this] x Inr show ?thesis by simp
  qed
qed

theorem manual_answers_raise_witness:
  "[''Manual finding. SOURCE: notes.pdf''] \<noteq> []
   \<and> extract_answers_from_papers (scripted_env 0 not_found) [paper_smith] ''q'' False 0 150
       ([''AI improves diagnosis.'', ''Narrative.''], [])
       = (Inr [''AI improves diagnosis. SOURCE: Smith (2020)''], ([''Narrative.''], [150]))
   \<and> literature_review (scripted_env 0 not_found) ''q'' [paper_smith]
       (map PStr [''Manual finding. SOURCE: notes.pdf''])
       ([''AI improves diagnosis.'', ''Narrative.''], [])
       = (Inl AttributeError, ([''Narrative.''], [150]))"
proof -
  have n: "[''Manual finding. SOURCE: notes.pdf''] \<noteq> []" by simp
  have x: "extract_answers_from_papers (scripted_env 0 not_found) [paper_smith] ''q'' False 0 150
       ([''AI improves diagnosis.'', ''Narrative.''], [])
       = (Inr [''AI improves diagnosis. SOURCE: Smith (2020)''], ([''Narrative.''], [150]))"
    by (simp add: run_simps)
  from manual_answers_raise[OF n, of "scripted_env 0 not_found" "''q''" "[paper_smith]"
         "([''AI improves diagnosis.'', ''Narrative.''], [])"] x n
  show ?thesis by blast
qed

lemma references_list_lines:
  "\<exists>lines. length lines = length citations
     \<and> (\<forall>i<length lines. lines ! i = str_nat (i + 1) @ ''. '' @ citations ! i)
     \<and> references_list citations = join ''\<newline>'' lines"
proof -
  let ?lines = "map (\<lambda>(idx, citation). str_nat (idx + 1) @ ''. '' @ citation) (enumerate 0 citations)"
  have "length ?lines = length citations" by simp
  moreover have "\<forall>i<length ?lines. ?lines ! i = str_nat (i + 1) @ ''. '' @ citations ! i"
    by (simp add: nth_enumerate_eq)
  moreover have "references_list citations = join ''\<newline>'' ?lines"
    by (simp add: references_list_def)
  ultimately show ?thesis by blast
qed

text \<open>
  Claim C4. When the extractor returns \<open>answers\<close> and the synthesizer then returns
  \<open>narrative\<close>, \<open>literature_review\<close> returns the narrative, the separator
  \<^verbatim>\<open>\n\nReferences:\n\<close>, the lines \<^verbatim>\<open>1. \<close>citation, \<^verbatim>\<open>2. \<close>citation, ... of the
  citations assembled from the same answers joined by newlines, and the marker
  \<^verbatim>\<open>resultEnd\<close>, in the world the synthesizer left. With no answers there is no
  numbered line, and the narrative is what the synthesizer returned for the empty list.
\<close>

theorem literature_review_layout:
  assumes "extract_answers_from_papers env (top_papers @ manualAnswers) rq False 0 150 w = (Inr answers, w1)"
    and "combine_answers env answers rq False (1 / 10) w1 = (Inr narrative, w2)"
  shows "(\<exists>lines. length lines = length (extract_citations answers)
            \<and> (\<forall>i<length lines. lines ! i = str_nat (i + 1) @ ''. '' @ extract_citations answers ! i)
            \<and> literature_review env rq top_papers manualAnswers w =
                (Inr (narrative @ ''\<newline>\<newline>References:\<newline>'' @ join ''\<newline>'' lines @ ''resultEnd''), w2))
       \<and> (answers = [] \<longrightarrow>
            literature_review env rq top_papers manualAnswers w =
              (Inr (narrative @ ''\<newline>\<newline>References:\<newline>'' @ ''resultEnd''), w2))"
proof -
  have l: "literature_review env rq top_papers manualAnswers w =
             (Inr (narrative @ ''\<newline>\<newline>References:\<newline>'' @ references_list (extract_citations answers)
                   @ ''resultEnd''), w2)"
    using assms by (simp add: literature_review_def Let_def)
  from references_list_lines[of "extract_citations answers"] obtain lines where
    "length lines = length (extract_citations answers)"
    "\<forall>i<length lines. lines ! i = str_nat (i + 1) @ ''. '' @ extract_citations answers ! i"
    "references_list (extract_citations answers) = join ''\<newline>'' lines"
    by blast
  with l have 1: "\<exists>lines. length lines = length (extract_citations answers)
            \<and> (\<forall>i<length lines. lines ! i = str_nat (i + 1) @ ''. '' @ extract_citations answers ! i)
            \<and> literature_review env rq top_papers manualAnswers w =
                (Inr (narrative @ ''\<newline>\<newline>References:\<newline>'' @ join ''\<newline>'' lines @ ''resultEnd''), w2)"
    by auto
  have 2: "literature_review env rq top_papers manualAnswers w =
              (Inr (narrative @ ''\<newline>\<newline>References:\<newline>'' @ ''resultEnd''), w2)" if "answers = []"
    using l that by (simp add: extract_citations_Nil references_list_def)
  from 1 2 show ?thesis by blast
qed

theorem literature_review_layout_witness:
  "literature_review (scripted_env 900 not_found) ''q'' [paper_smith, paper_jones] []
     ([''AI improves diagnosis.'', ''AI raises cost concerns.'', ''Narrative.''], [])
     = (Inr ''Narrative.\<newline>\<newline>References:\<newline>1. Smith (2020)\<newline>2. Jones (2021)resultEnd'',
        ([], [150, 150, 3180]))
   \<and> literature_review (scripted_env 900 not_found) ''q'' [] [] ([''Nothing was found.''], [])
     = (Inr ''Nothing was found.\<newline>\<newline>References:\<newline>resultEnd'', ([], [3180]))"
proof -
  have x: "extract_answers_from_papers (scripted_env 900 not_found) ([paper_smith, paper_jones] @ []) ''q'' False 0 150
       ([''AI improves diagnosis.'', ''AI raises cost concerns.'', ''Narrative.''], [])
       = (Inr [''AI improves diagnosis. SOURCE: Smith (2020)'', ''AI raises cost concerns. SOURCE: Jones (2021)''],
          ([''Narrative.''], [150, 150]))"
    by (simp add: run_simps)
  have c: "combine_answers (scripted_env 900 not_found)
             [''AI improves diagnosis. SOURCE: Smith (2020)'', ''AI raises cost concerns. SOURCE: Jones (2021)'']
             ''q'' False (1 / 10) ([''Narrative.''], [150, 150])
           = (Inr ''Narrative.'', ([], [150, 150, 3180]))"
    by (simp add: combine_answers_def count_tokens_def max_tokens_for_def scripted_env_def)
  have x0: "extract_answers_from_papers (scripted_env 900 not_found) ([] @ []) ''q'' False 0 150
       ([''Nothing was found.''], []) = (Inr [], ([''Nothing was found.''], []))"
    by (simp add: extract_Nil)
  have c0: "combine_answers (scripted_env 900 not_found) [] ''q'' False (1 / 10) ([''Nothing was found.''], [])
           = (Inr ''Nothing was found.'', ([], [3180]))"
    by (simp add: combine_answers_def count_tokens_def max_tokens_for_def scripted_env_def)
  from literature_review_layout[OF x c] obtain lines where
    n: "length lines = length (extract_citations
          [''AI improves diagnosis. SOURCE: Smith (2020)'', ''AI raises cost concerns. SOURCE: Jones (2021)''])"
    and i: "\<forall>i<length lines. lines ! i = str_nat (i + 1) @ ''. '' @ extract_citations
          [''AI improves diagnosis. SOURCE: Smith (2020)'', ''AI raises cost concerns. SOURCE: Jones (2021)''] ! i"
    and r: "literature_review (scripted_env 900 not_found) ''q'' [paper_smith, paper_jones] []
             ([''AI improves diagnosis.'', ''AI raises cost concerns.'', ''Narrative.''], [])
           = (Inr (''Narrative.'' @ ''\<newline>\<newline>References:\<newline>'' @ join ''\<newline>'' lines @ ''resultEnd''),
              ([], [150, 150, 3180]))"
    by blast
  from n have len: "length lines = 2" by (simp add: extract_citations_example)
  then obtain a b where ab: "lines = [a, b]"
    by (metis (no_types) Suc_length_conv length_0_conv numeral_2_eq_2)
  from i len have "lines ! 0 = ''1. Smith (2020)''" "lines ! 1 = ''2. Jones (2021)''"
    by (simp_all add: extract_citations_example str_nat.simps)
  with ab have "lines = [''1. Smith (2020)'', ''2. Jones (2021)'']" by simp
  with r have 1: "literature_review (scripted_env 900 not_found) ''q'' [paper_smith, paper_jones] []
     ([''AI improves diagnosis.'', ''AI raises cost concerns.'', ''Narrative.''], [])
     = (Inr ''Narrative.\<newline>\<newline>References:\<newline>1. Smith (2020)\<newline>2. Jones (2021)resultEnd'',
        ([], [150, 150, 3180]))"
    by simp
  from literature_review_layout[OF x0 c0]
  have 2: "literature_review (scripted_env 900 not_found) ''q'' [] [] ([''Nothing was found.''], [])
     = (Inr ''Nothing was found.\<newline>\<newline>References:\<newline>resultEnd'', ([], [3180]))"
    by simp
  from 1 2 show ?thesis by blast
qed

end
